theory Spec2Isabelle
  imports Main "HOL-Library.Sublist"
begin

section \<open>JavaScript strings\<close>

text \<open>
  A JavaScript string is modelled as a \<^typ>\<open>string\<close>. The model covers ASCII text:
  case folding touches the letters A to Z only and white space is the six ASCII
  white-space characters; every other character is left alone.
\<close>

definition lowerChar :: "char \<Rightarrow> char" where
  "lowerChar c =
     (case map_of (zip ''ABCDEFGHIJKLMNOPQRSTUVWXYZ'' ''abcdefghijklmnopqrstuvwxyz'') c of
        Some l \<Rightarrow> l
      | None \<Rightarrow> c)"

definition toLowerCase :: "string \<Rightarrow> string" where
  "toLowerCase s = map lowerChar s"

definition isSpace :: "char \<Rightarrow> bool" where
  "isSpace c = (c \<in> set [CHR '' '', CHR 0x09, CHR 0x0A, CHR 0x0B, CHR 0x0C, CHR 0x0D])"

definition trim :: "string \<Rightarrow> string" where
  "trim s = rev (dropWhile isSpace (rev (dropWhile isSpace s)))"

fun startsWith :: "string \<Rightarrow> string \<Rightarrow> bool" where
  "startsWith s [] = True"
| "startsWith [] (p # ps) = False"
| "startsWith (c # s) (p # ps) = (if c = p then startsWith s ps else False)"

text \<open>The same comparison without regard to case, as a regular expression under the
  flag \<open>i\<close> reads a literal.\<close>

fun startsWithIgnoreCase :: "string \<Rightarrow> string \<Rightarrow> bool" where
  "startsWithIgnoreCase s [] = True"
| "startsWithIgnoreCase [] (p # ps) = False"
| "startsWithIgnoreCase (c # s) (p # ps) =
     (if lowerChar c = lowerChar p then startsWithIgnoreCase s ps else False)"

fun str_includes :: "string \<Rightarrow> string \<Rightarrow> bool" where
  "str_includes [] p = (p = [])"
| "str_includes (c # s) p = (if startsWith (c # s) p then True else str_includes s p)"

text \<open>\<open>s.lastIndexOf(c)\<close> for a one-character needle: the last index, or -1.\<close>

definition lastIndexOf :: "string \<Rightarrow> char \<Rightarrow> int" where
  "lastIndexOf s c =
     (if c \<in> set s then int (length s) - 1 - int (length (takeWhile (\<lambda>x. x \<noteq> c) (rev s)))
      else - 1)"

text \<open>\<open>s.substring(a, b)\<close> and \<open>s.substring(a)\<close>: indices are clamped to the string and
  swapped when they come in the wrong order.\<close>

definition substring :: "string \<Rightarrow> int \<Rightarrow> int \<Rightarrow> string" where
  "substring s a b =
     (let n = int (length s);
          a' = max 0 (min a n);
          b' = max 0 (min b n);
          lo = min a' b';
          hi = max a' b'
      in take (nat (hi - lo)) (drop (nat lo) s))"

definition substring_from :: "string \<Rightarrow> int \<Rightarrow> string" where
  "substring_from s a = substring s a (int (length s))"

section \<open>SafetyFilter\<close>

definition DEFAULT_BLOCKLIST :: "string list" where
  "DEFAULT_BLOCKLIST =
     [''rm -rf /'', ''rm -rf ~'', ''rm -rf *'', ''format c:'', ''del /f /s /q'',
      ''rmdir /s /q'', '':(){:|:&};:'', ''dd if='', ''mkfs.'', ''> /dev/sda'',
      ''chmod -R 777 /'']"

text \<open>
  \<open>config.get('safety.blocklist')\<close> is the configured list, or nothing when the setting
  is undefined.
\<close>

definition getBlocklist :: "string list option \<Rightarrow> string list" where
  "getBlocklist custom =
     (case custom of
        Some c \<Rightarrow> if length c > 0 then c else DEFAULT_BLOCKLIST
      | None \<Rightarrow> DEFAULT_BLOCKLIST)"

text \<open>
  The regular-expression engine is the JavaScript runtime's, not this program's: it is a
  parameter. \<open>RegExp source flags\<close> is \<open>None\<close> when \<open>new RegExp(source, flags)\<close> throws,
  and otherwise the compiled expression's \<open>test\<close>.
\<close>

type_synonym regexp_engine = "string \<Rightarrow> string \<Rightarrow> (string \<Rightarrow> bool) option"

fun isBlocked_loop :: "regexp_engine \<Rightarrow> string \<Rightarrow> string list \<Rightarrow> bool" where
  "isBlocked_loop RegExp command [] = False"
| "isBlocked_loop RegExp command (pattern # rest) =
     (let lowerCommand = toLowerCase command;
          lowerPattern = trim (toLowerCase pattern)
      in if lowerPattern = [] then isBlocked_loop RegExp command rest
         else if startsWith pattern ''/'' \<and> lastIndexOf pattern (CHR ''/'') > 0 then
           (let lastSlash = lastIndexOf pattern (CHR ''/'');
                regexPattern = substring pattern 1 lastSlash;
                flags = (if substring_from pattern (lastSlash + 1) = []
                         then ''i'' else substring_from pattern (lastSlash + 1))
            in case RegExp regexPattern flags of
                 Some regex \<Rightarrow>
                   if regex command then True else isBlocked_loop RegExp command rest
               | None \<Rightarrow>
                   if str_includes lowerCommand lowerPattern then True
                   else isBlocked_loop RegExp command rest)
         else if str_includes lowerCommand lowerPattern then True
         else isBlocked_loop RegExp command rest)"

definition isBlocked :: "regexp_engine \<Rightarrow> string list option \<Rightarrow> string \<Rightarrow> bool" where
  "isBlocked RegExp custom command = isBlocked_loop RegExp command (getBlocklist custom)"

text \<open>
  The matching rule of one blocklist entry, in the words of the specification: an entry
  \<open>/pattern/flags\<close> is a regular expression over the raw command, a delimited entry
  that does not compile is searched by its inner text, and any other entry is searched
  without regard to case.
\<close>

definition delimited :: "string \<Rightarrow> bool" where
  "delimited entry = (startsWith entry ''/'' \<and> lastIndexOf entry (CHR ''/'') > 0)"

definition inner_text :: "string \<Rightarrow> string" where
  "inner_text entry = substring entry 1 (lastIndexOf entry (CHR ''/''))"

definition flags_of :: "string \<Rightarrow> string" where
  "flags_of entry =
     (if substring_from entry (lastIndexOf entry (CHR ''/'') + 1) = [] then ''i''
      else substring_from entry (lastIndexOf entry (CHR ''/'') + 1))"

definition entry_matches_claimed :: "regexp_engine \<Rightarrow> string \<Rightarrow> string \<Rightarrow> bool" where
  "entry_matches_claimed RegExp entry command =
     (if delimited entry then
        (case RegExp (inner_text entry) (flags_of entry) of
           Some regex \<Rightarrow> regex command
         | None \<Rightarrow> str_includes (toLowerCase command) (toLowerCase (inner_text entry)))
      else str_includes (toLowerCase command) (toLowerCase entry))"

text \<open>
  The rule the loop of \<open>isBlocked\<close> applies: an entry that is blank once trimmed matches
  nothing; a literal entry is trimmed before the search; a delimited entry that does not
  compile is searched whole, delimiters and flags included.
\<close>

definition entry_matches :: "regexp_engine \<Rightarrow> string \<Rightarrow> string \<Rightarrow> bool" where
  "entry_matches RegExp entry command =
     (trim (toLowerCase entry) \<noteq> [] \<and>
      (if delimited entry then
         (case RegExp (inner_text entry) (flags_of entry) of
            Some regex \<Rightarrow> regex command
          | None \<Rightarrow> str_includes (toLowerCase command) (trim (toLowerCase entry)))
       else str_includes (toLowerCase command) (trim (toLowerCase entry))))"

text \<open>
  An engine for the concrete evaluations below. It agrees with ECMAScript on the sources
  used there: a source of letters, digits and blanks under the flag \<open>i\<close> searches without
  regard to case, and a source with an unclosed parenthesis does not compile. Every other
  source is outside the fragment and answered with \<open>None\<close>.
\<close>

definition RegExp_fragment :: regexp_engine where
  "RegExp_fragment source flags =
     (if flags = ''i'' \<and>
         list_all (\<lambda>c. c \<in> set ''abcdefghijklmnopqrstuvwxyzABCDEFGHIJKLMNOPQRSTUVWXYZ0123456789 '')
           source
      then Some (\<lambda>s. str_includes (toLowerCase s) (toLowerCase source))
      else None)"

section \<open>The decision routine built by AutoClicker.generateClickScript\<close>

definition ACCEPT_PATTERNS :: "string list" where
  "ACCEPT_PATTERNS =
     [''accept'', ''accept all'', ''run'', ''run command'', ''apply'', ''execute'', ''retry'',
      ''try again'', ''resume'', ''confirm'', ''allow once'', ''allow'']"

definition REJECT_PATTERNS :: "string list" where
  "REJECT_PATTERNS =
     [''skip'', ''reject'', ''cancel'', ''discard'', ''deny'', ''close'', ''refine'', ''other'']"

text \<open>
  The page as the routine reads it. An element carries what the routine asks of it: its
  tag (local name, lower case), its \<open>role\<close> and \<open>class\<close> attributes (empty when absent),
  its text, the computed \<open>display\<close> and \<open>pointer-events\<close>, the width of its bounding box
  (only compared with zero), its \<open>disabled\<close> flag, and \<open>preview\<close>: the text of the first
  \<open>pre\<close> or \<open>code\<close> element under the nearest enclosing \<open>div\<close>, when there is one
  (\<open>btn.closest('div')?.querySelector('pre, code')\<close>). The page is read as it stands when
  the routine starts.
\<close>

record element =
  tagName :: string
  role :: string
  className :: string
  textContent :: string
  display :: string
  pointerEvents :: string
  width :: nat
  disabled :: bool
  preview :: "string option"

text \<open>
  The focused element: its tag as the DOM reports it, whether it is content-editable, and
  the \<open>class\<close> attributes of the element and of its ancestors, innermost first (what
  \<open>closest\<close> walks through).
\<close>

record focus =
  activeTagName :: string
  isContentEditable :: bool
  lineage :: "string list"

record document =
  activeElement :: "focus option"
  elements :: "element list"

text \<open>\<open>s.split(c)\<close> for a separator recognised character by character.\<close>

primrec splitOn :: "(char \<Rightarrow> bool) \<Rightarrow> string \<Rightarrow> string list" where
  "splitOn P [] = [[]]"
| "splitOn P (c # cs) =
     (if P c then [] # splitOn P cs
      else (case splitOn P cs of
              w # ws \<Rightarrow> (c # w) # ws
            | [] \<Rightarrow> [[c]]))"

text \<open>The tokens of a \<open>class\<close> attribute: it is split at HTML white space.\<close>

definition isHtmlSpace :: "char \<Rightarrow> bool" where
  "isHtmlSpace c = (c \<in> set [CHR '' '', CHR 0x09, CHR 0x0A, CHR 0x0C, CHR 0x0D])"

definition classTokens :: "string \<Rightarrow> string list" where
  "classTokens attr = filter (\<lambda>w. w \<noteq> []) (splitOn isHtmlSpace attr)"

text \<open>\<open>el.closest('.name')\<close> and \<open>el.closest('[class*="part"]')\<close>, as truth values.\<close>

definition closest_class :: "string \<Rightarrow> string list \<Rightarrow> bool" where
  "closest_class name classes = list_ex (\<lambda>attr. name \<in> set (classTokens attr)) classes"

definition closest_class_contains :: "string \<Rightarrow> string list \<Rightarrow> bool" where
  "closest_class_contains part classes = list_ex (\<lambda>attr. str_includes attr part) classes"

definition isUserTyping :: "focus option \<Rightarrow> bool" where
  "isUserTyping activeEl =
     (case activeEl of
        None \<Rightarrow> False
      | Some a \<Rightarrow>
          (let tag = toLowerCase (activeTagName a)
           in if tag = ''input'' \<or> tag = ''textarea'' then True
              else if isContentEditable a then True
              else if closest_class ''monaco-editor'' (lineage a) then True
              else if closest_class_contains ''input'' (lineage a) then True
              else if closest_class ''ProseMirror'' (lineage a) then True
              else False))"

fun isCommandBlocked :: "string list \<Rightarrow> string \<Rightarrow> bool" where
  "isCommandBlocked [] text = False"
| "isCommandBlocked (pattern # rest) text =
     (if str_includes (toLowerCase text) (toLowerCase pattern) then True
      else isCommandBlocked rest text)"

definition isAcceptButton :: "element \<Rightarrow> bool" where
  "isAcceptButton el =
     (let text = toLowerCase (trim (textContent el))
      in if length text = 0 \<or> length text > 50 then False
         else if list_ex (\<lambda>p. str_includes text p) REJECT_PATTERNS then False
         else if \<not> list_ex (\<lambda>p. str_includes text p) ACCEPT_PATTERNS then False
         else if display el = ''none'' \<or> width el = 0 then False
         else if pointerEvents el = ''none'' \<or> disabled el then False
         else True)"

text \<open>
  \<open>document.querySelectorAll('button, [role="button"], [class*="button"]')\<close>: the
  elements matching one of the three selectors, in document order.
\<close>

definition matchesSelector :: "element \<Rightarrow> bool" where
  "matchesSelector el =
     (tagName el = ''button'' \<or> role el = ''button'' \<or> str_includes (className el) ''button'')"

definition querySelectorAll :: "document \<Rightarrow> element list" where
  "querySelectorAll doc = filter matchesSelector (elements doc)"

text \<open>
  The loop over the buttons. The model returns the elements on which \<open>click()\<close> was
  called, in order; the counter \<open>clicked\<close> of the source is their number.
\<close>

fun clickLoop :: "string list \<Rightarrow> element list \<Rightarrow> element list" where
  "clickLoop BLOCKLIST [] = []"
| "clickLoop BLOCKLIST (btn # rest) =
     (if isAcceptButton btn then
        (let text = trim (textContent btn)
         in if (str_includes (toLowerCase text) ''run'' \<or>
                str_includes (toLowerCase text) ''execute'') \<and>
               (case preview btn of
                  Some pre \<Rightarrow> isCommandBlocked BLOCKLIST pre
                | None \<Rightarrow> False)
            then clickLoop BLOCKLIST rest
            else btn # clickLoop BLOCKLIST rest)
      else clickLoop BLOCKLIST rest)"

text \<open>
  One evaluation of the routine: the value it returns (\<open>clicked\<close>, \<open>skipped\<close>), the
  elements it enumerated as candidates and the elements it clicked.
\<close>

record evaluation =
  clicked :: nat
  skipped :: "string option"
  candidates :: "element list"
  clicks :: "element list"

definition clickScript :: "string list \<Rightarrow> document \<Rightarrow> evaluation" where
  "clickScript BLOCKLIST doc =
     (if isUserTyping (activeElement doc) then
        \<lparr>clicked = 0, skipped = Some ''user typing'', candidates = [], clicks = []\<rparr>
      else
        (let buttons = querySelectorAll doc;
             done = clickLoop BLOCKLIST buttons
         in \<lparr>clicked = length done, skipped = None, candidates = buttons, clicks = done\<rparr>))"

text \<open>
  \<open>generateClickScript\<close> fills the routine's \<open>BLOCKLIST\<close> with
  \<open>config.get('safety.blocklist') ?? []\<close>.
\<close>

definition generateClickScript :: "string list option \<Rightarrow> document \<Rightarrow> evaluation" where
  "generateClickScript configured =
     clickScript (case configured of Some b \<Rightarrow> b | None \<Rightarrow> [])"

text \<open>Elements and pages for the concrete evaluations.\<close>

definition plainButton :: "string \<Rightarrow> string option \<Rightarrow> element" where
  "plainButton label pre =
     \<lparr>tagName = ''button'', role = '''', className = '''', textContent = label,
      display = ''inline-block'', pointerEvents = ''auto'', width = 96, disabled = False,
      preview = pre\<rparr>"

definition idle :: "element list \<Rightarrow> document" where
  "idle els = \<lparr>activeElement = None, elements = els\<rparr>"

section \<open>ProcessHunter\<close>

subsection \<open>Numbers and regular expressions used by the parsers\<close>

definition isDigit :: "char \<Rightarrow> bool" where
  "isDigit c = (c \<in> set ''0123456789'')"

text \<open>The class \<open>\w\<close> of a regular expression: letters, digits and the underscore.\<close>

definition isWordChar :: "char \<Rightarrow> bool" where
  "isWordChar c =
     (c \<in> set ''abcdefghijklmnopqrstuvwxyzABCDEFGHIJKLMNOPQRSTUVWXYZ0123456789_'')"

definition digitValue :: "char \<Rightarrow> int" where
  "digitValue c =
     (case map_of (zip ''0123456789'' [0, 1, 2, 3, 4, 5, 6, 7, 8, 9]) c of
        Some d \<Rightarrow> d
      | None \<Rightarrow> 0)"

definition decimal :: "string \<Rightarrow> int" where
  "decimal ds = foldl (\<lambda>n c. 10 * n + digitValue c) 0 ds"

text \<open>
  \<open>parseInt(s, 10)\<close>: leading white space is skipped, a sign is read, then the longest
  run of digits; without a digit the result is \<open>NaN\<close>, here \<open>None\<close>. The value is the
  exact integer (a JavaScript number is exact below \<open>2^53\<close>).
\<close>

definition parseInt :: "string \<Rightarrow> int option" where
  "parseInt s =
     (let s1 = dropWhile isSpace s;
          negative = startsWith s1 ''-'';
          s2 = (if startsWith s1 ''-'' \<or> startsWith s1 ''+'' then drop 1 s1 else s1);
          ds = takeWhile isDigit s2
      in if ds = [] then None
         else Some (if negative then - decimal ds else decimal ds))"

text \<open>
  \<open>stdout.match(/\b\d{1,5}\b/g)\<close>. The scan goes from left to right; \<open>prevWord\<close> tells
  whether the character before the current position is a word character. A match starts
  at a digit that follows no word character, takes the whole run of digits, and needs the
  run to have at most five digits and to be followed by no word character; the scan goes
  on after the match, or at the next position when there is none.
\<close>

function matchPortNumbers :: "bool \<Rightarrow> string \<Rightarrow> string list" where
  "matchPortNumbers prevWord [] = []"
| "matchPortNumbers prevWord (c # cs) =
     (if \<not> prevWord \<and> isDigit c \<and> length (takeWhile isDigit (c # cs)) \<le> 5 \<and>
         (case dropWhile isDigit (c # cs) of [] \<Rightarrow> True | d # _ \<Rightarrow> \<not> isWordChar d)
      then takeWhile isDigit (c # cs) # matchPortNumbers True (dropWhile isDigit (c # cs))
      else matchPortNumbers (isWordChar c) cs)"
  by pat_completeness auto
termination
proof (relation "measure (\<lambda>(prevWord, s). length s)")
  show "wf (measure (\<lambda>(prevWord, s). length s))" by simp
next
  fix prevWord :: bool and c :: char and cs :: string
  assume "\<not> prevWord \<and> isDigit c \<and> length (takeWhile isDigit (c # cs)) \<le> 5 \<and>
         (case dropWhile isDigit (c # cs) of [] \<Rightarrow> True | d # _ \<Rightarrow> \<not> isWordChar d)"
  then have "dropWhile isDigit (c # cs) = dropWhile isDigit cs" by simp
  moreover have "length (dropWhile isDigit cs) \<le> length cs" by (rule length_dropWhile_le)
  ultimately show "((True, dropWhile isDigit (c # cs)), (prevWord, c # cs))
      \<in> measure (\<lambda>(prevWord, s). length s)" by simp
next
  fix prevWord :: bool and c :: char and cs :: string
  show "((isWordChar c, cs), (prevWord, c # cs)) \<in> measure (\<lambda>(prevWord, s). length s)"
    by simp
qed

text \<open>
  A search for \<open>literal[=\s]+(value+)\<close>, the shape of the two flag expressions: the
  leftmost place where the literal stands (without regard to case under the flag \<open>i\<close>),
  followed by at least one \<open>=\<close> or white-space character and at least one value
  character; the capture is the whole run of value characters.
\<close>

definition matchFlagHere :: "bool \<Rightarrow> string \<Rightarrow> (char \<Rightarrow> bool) \<Rightarrow> string \<Rightarrow> string option" where
  "matchFlagHere ignoreCase literal isValue s =
     (if (if ignoreCase then startsWithIgnoreCase s literal else startsWith s literal) then
        (let after = drop (length literal) s;
             separators = takeWhile (\<lambda>c. c = CHR ''='' \<or> isSpace c) after;
             capture = takeWhile isValue (dropWhile (\<lambda>c. c = CHR ''='' \<or> isSpace c) after)
         in if separators \<noteq> [] \<and> capture \<noteq> [] then Some capture else None)
      else None)"

fun matchFlag :: "bool \<Rightarrow> string \<Rightarrow> (char \<Rightarrow> bool) \<Rightarrow> string \<Rightarrow> string option" where
  "matchFlag ignoreCase literal isValue [] = matchFlagHere ignoreCase literal isValue []"
| "matchFlag ignoreCase literal isValue (c # cs) =
     (case matchFlagHere ignoreCase literal isValue (c # cs) of
        Some capture \<Rightarrow> Some capture
      | None \<Rightarrow> matchFlag ignoreCase literal isValue cs)"

text \<open>\<open>/--app_data_dir\s+antigravity\b/i.test(cmdLine)\<close>.\<close>

definition markerHere :: "string \<Rightarrow> bool" where
  "markerHere s =
     (if startsWithIgnoreCase s ''--app_data_dir'' then
        (let after = drop (length ''--app_data_dir'') s;
             name = dropWhile isSpace after
         in if takeWhile isSpace after \<noteq> [] \<and> startsWithIgnoreCase name ''antigravity'' then
              (case drop (length ''antigravity'') name of
                 [] \<Rightarrow> True
               | d # _ \<Rightarrow> \<not> isWordChar d)
            else False)
      else False)"

fun markerTest :: "string \<Rightarrow> bool" where
  "markerTest [] = False"
| "markerTest (c # cs) = (if markerHere (c # cs) then True else markerTest cs)"

subsection \<open>Process parsing\<close>

datatype platform = Win32 | Darwin | Linux

record ProcessInfo =
  pid :: int
  extensionPort :: int
  csrfToken :: string

definition isAntigravityProcess :: "string \<Rightarrow> bool" where
  "isAntigravityProcess cmdLine =
     (str_includes cmdLine ''--extension_server_port'' \<and>
      str_includes cmdLine ''--csrf_token'' \<and>
      markerTest cmdLine)"

text \<open>\<open>s.split(/\s+/)\<close>: the pieces between the maximal runs of white space.\<close>

definition split_ws :: "string \<Rightarrow> string list" where
  "split_ws s =
     (case splitOn isSpace s of
        [] \<Rightarrow> []
      | [w] \<Rightarrow> [w]
      | w # ws \<Rightarrow> w # filter (\<lambda>x. x \<noteq> []) (butlast ws) @ [last ws])"

text \<open>\<open>parts.join(' ')\<close>.\<close>

fun join_space :: "string list \<Rightarrow> string" where
  "join_space [] = []"
| "join_space [w] = w"
| "join_space (w # ws) = w @ '' '' @ join_space ws"

definition isHexTokenChar :: "char \<Rightarrow> bool" where
  "isHexTokenChar c = (c \<in> set ''abcdefABCDEF0123456789-'')"

definition isTokenChar :: "char \<Rightarrow> bool" where
  "isTokenChar c =
     (c \<in> set ''abcdefghijklmnopqrstuvwxyzABCDEFGHIJKLMNOPQRSTUVWXYZ0123456789-'')"

definition portOf :: "string \<Rightarrow> int" where
  "portOf cmd =
     (case matchFlag False ''--extension_server_port'' isDigit cmd of
        Some digits \<Rightarrow> (case parseInt digits of Some n \<Rightarrow> n | None \<Rightarrow> 0)
      | None \<Rightarrow> 0)"

text \<open>The loop over the lines of \<open>ps\<close> (every platform but Windows).\<close>

fun parseLines :: "string list \<Rightarrow> ProcessInfo list" where
  "parseLines [] = []"
| "parseLines (line # rest) =
     (let parts = split_ws (trim line)
      in if length parts < 3 then parseLines rest
         else
           (let cmd = join_space (drop 2 parts)
            in case parseInt (parts ! 0) of
                 None \<Rightarrow> parseLines rest
               | Some p \<Rightarrow>
                   if \<not> isAntigravityProcess cmd then parseLines rest
                   else
                     (case matchFlag True ''--csrf_token'' isTokenChar cmd of
                        Some token \<Rightarrow>
                          \<lparr>pid = p, extensionPort = portOf cmd, csrfToken = token\<rparr>
                            # parseLines rest
                      | None \<Rightarrow> parseLines rest)))"

text \<open>
  On Windows the listing is JSON. Decoding is the runtime's \<open>JSON.parse\<close>; the model
  starts from the decoded items, each with the two selected properties, \<open>null\<close> being
  \<open>None\<close>.
\<close>

record win_item =
  ProcessId :: "int option"
  CommandLine :: "string option"

fun parseItems :: "win_item list \<Rightarrow> ProcessInfo list" where
  "parseItems [] = []"
| "parseItems (item # rest) =
     (let cmdLine = (case CommandLine item of Some c \<Rightarrow> c | None \<Rightarrow> [])
      in if \<not> isAntigravityProcess cmdLine then parseItems rest
         else
           (case (ProcessId item, matchFlag True ''--csrf_token'' isHexTokenChar cmdLine) of
              (Some p, Some token) \<Rightarrow>
                if p \<noteq> 0 then
                  \<lparr>pid = p, extensionPort = portOf cmdLine, csrfToken = token\<rparr> # parseItems rest
                else parseItems rest
            | _ \<Rightarrow> parseItems rest))"

text \<open>
  \<open>parseProcessInfo\<close>. \<open>JSON_parse\<close> stands for \<open>JSON.parse\<close> followed by the wrapping of
  a single object into a list; it is \<open>None\<close> when the text does not parse, which the
  source catches.
\<close>

definition parseProcessInfo ::
  "(string \<Rightarrow> win_item list option) \<Rightarrow> platform \<Rightarrow> string \<Rightarrow> ProcessInfo list" where
  "parseProcessInfo JSON_parse pf stdout =
     (if pf = Win32 then
        (if CHR ''{'' \<notin> set stdout then []
         else (case JSON_parse (trim (dropWhile (\<lambda>c. c \<noteq> CHR ''{'') stdout)) of
                 None \<Rightarrow> []
               | Some data \<Rightarrow> parseItems data))
      else parseLines (filter (\<lambda>l. trim l \<noteq> []) (splitOn (\<lambda>c. c = CHR 0x0A) stdout)))"

subsection \<open>Port scanning and verification\<close>

text \<open>The \<open>Set\<close> of ports keeps the order of first insertion.\<close>

fun collectPorts :: "int list \<Rightarrow> string list \<Rightarrow> int list" where
  "collectPorts ports [] = ports"
| "collectPorts ports (v # rest) =
     (case parseInt v of
        Some port \<Rightarrow>
          if port > 1024 \<and> port \<le> 65535 then
            collectPorts (if port \<in> set ports then ports else ports @ [port]) rest
          else collectPorts ports rest
      | None \<Rightarrow> collectPorts ports rest)"

definition parseListeningPorts :: "string \<Rightarrow> int list" where
  "parseListeningPorts stdout = sort (collectPorts [] (matchPortNumbers False stdout))"

text \<open>
  \<open>verifyConnection\<close>, with the probe \<open>pingPort\<close> as a parameter. The model returns the
  ports probed, in order, and the port returned.
\<close>

fun verifyConnection ::
  "(int \<Rightarrow> string \<Rightarrow> bool) \<Rightarrow> int list \<Rightarrow> string \<Rightarrow> int list \<times> int option" where
  "verifyConnection pingPort [] token = ([], None)"
| "verifyConnection pingPort (port # rest) token =
     (if pingPort port token then ([port], Some port)
      else (port # fst (verifyConnection pingPort rest token),
            snd (verifyConnection pingPort rest token)))"

section \<open>The control channel of AutoClicker\<close>

text \<open>
  The state that \<open>sendCDP\<close> reads and writes: the socket (\<open>None\<close> for \<open>null\<close>) with its
  ready state, the counter \<open>messageId\<close>, the \<open>message\<close> handlers registered on the socket
  (each is the closure of one call, named by the call's id), the envelopes sent (id and
  method; the parameters play no part), and the promise of every call. The counter is a
  natural number: a JavaScript number counts exactly below \<open>2^53\<close>. The last field,
  \<open>uncaught\<close>, holds the exception that has escaped a listener, if one has.
\<close>

datatype readyState = CONNECTING | OPEN | CLOSING | CLOSED

datatype outcome = Pending | Resolved string | Rejected string

record AutoClicker =
  ws :: "readyState option"
  messageId :: nat
  handlers :: "nat list"
  sent :: "(nat \<times> string) list"
  promises :: "nat \<rightharpoonup> outcome"
  uncaught :: "string option"

definition newAutoClicker :: AutoClicker where
  "newAutoClicker =
     \<lparr>ws = None, messageId = 0, handlers = [], sent = [], promises = Map.empty,
      uncaught = None\<rparr>"

text \<open>
  \<open>sendCDP\<close> throws when the socket is absent or not open. Otherwise it takes the next id,
  registers the handler, sends the envelope and returns the promise, here the id under
  which the promise is kept.
\<close>

definition sendCDP :: "AutoClicker \<Rightarrow> string \<Rightarrow> string + nat \<times> AutoClicker" where
  "sendCDP st method =
     (if ws st \<noteq> Some OPEN then Inl ''WebSocket not connected''
      else
        (let id = messageId st + 1
         in Inr (id, st\<lparr>messageId := id,
                         handlers := handlers st @ [id],
                         sent := sent st @ [(id, method)],
                         promises := (promises st)(id \<mapsto> Pending)\<rparr>)))"

text \<open>
  An inbound frame, as the handler's \<open>JSON.parse(data.toString())\<close> reads it: a response
  with an id, an error message when it has an \<open>error\<close> member, and a result; a value
  without an id (an event of the remote side); text that does not parse, on which
  \<open>JSON.parse\<close> throws a \<open>SyntaxError\<close>; and the value \<open>null\<close>, on which reading
  \<open>response.id\<close> throws a \<open>TypeError\<close>.
\<close>

datatype inbound = Response nat "string option" string | Unsolicited | Malformed | Null

text \<open>A promise settles once: settling a promise that is not pending changes nothing.\<close>

definition settle :: "nat \<Rightarrow> outcome \<Rightarrow> (nat \<rightharpoonup> outcome) \<Rightarrow> (nat \<rightharpoonup> outcome)" where
  "settle callId v ps = (if ps callId = Some Pending then ps(callId \<mapsto> v) else ps)"

text \<open>
  The \<open>message\<close> event runs the registered handlers. A handler whose id is the response's
  removes itself and settles its promise: rejected when the response has an error,
  resolved with the result otherwise; a value without that id leaves it alone. The
  handler has no \<open>try\<close>: on text that does not parse, or on \<open>null\<close>, the first handler
  throws, the exception leaves the listener (\<open>Inl\<close>), and no handler is removed and no
  promise settled. Without a registered handler nothing runs and nothing is thrown.
\<close>

definition onMessage :: "inbound \<Rightarrow> AutoClicker \<Rightarrow> string + AutoClicker" where
  "onMessage frame st =
     (case frame of
        Response rid err result \<Rightarrow>
          if rid \<in> set (handlers st) then
            Inr (st\<lparr>handlers := filter (\<lambda>h. h \<noteq> rid) (handlers st),
                    promises := settle rid
                      (case err of Some message \<Rightarrow> Rejected message | None \<Rightarrow> Resolved result)
                      (promises st)\<rparr>)
          else Inr st
      | Unsolicited \<Rightarrow> Inr st
      | Malformed \<Rightarrow> if handlers st = [] then Inr st else Inl ''SyntaxError''
      | Null \<Rightarrow> if handlers st = [] then Inr st else Inl ''TypeError'')"

text \<open>
  What can happen to an AutoClicker: a call of \<open>sendCDP\<close>; a frame arriving; time passing
  (\<open>sendCDP\<close> starts no timer, so no code of the channel runs); the socket of a new
  connection opening; the transport closing (no handler is registered for it); and
  \<open>disconnect\<close>, which closes the socket and forgets it. \<open>react\<close> is one of these on a
  running AutoClicker; an exception that leaves the \<open>message\<close> listener is recorded in
  \<open>uncaught\<close>.
\<close>

datatype action =
    Call string
  | Frame inbound
  | Elapsed nat
  | Opened
  | TransportClosed
  | Disconnect

fun react :: "AutoClicker \<Rightarrow> action \<Rightarrow> AutoClicker" where
  "react st (Call method) = (case sendCDP st method of Inl err \<Rightarrow> st | Inr (callId, st') \<Rightarrow> st')"
| "react st (Frame frame) =
     (case onMessage frame st of Inl exn \<Rightarrow> st\<lparr>uncaught := Some exn\<rparr> | Inr st' \<Rightarrow> st')"
| "react st (Elapsed ms) = st"
| "react st Opened = st\<lparr>ws := Some OPEN, handlers := []\<rparr>"
| "react st TransportClosed = (case ws st of None \<Rightarrow> st | Some r \<Rightarrow> st\<lparr>ws := Some CLOSED\<rparr>)"
| "react st Disconnect = st\<lparr>ws := None, handlers := []\<rparr>"

text \<open>
  Nothing catches an exception that has left a listener: the run ends with it. Once
  \<open>uncaught\<close> is set no further action is carried out: no later frame is delivered to a
  handler and no promise is settled any more.
\<close>

definition step :: "AutoClicker \<Rightarrow> action \<Rightarrow> AutoClicker" where
  "step st a = (case uncaught st of Some exn \<Rightarrow> st | None \<Rightarrow> react st a)"

definition run :: "AutoClicker \<Rightarrow> action list \<Rightarrow> AutoClicker" where
  "run st actions = foldl step st actions"




text \<open>
  What the steps preserve: the ids of the envelopes sent ascend strictly and lie between
  one and \<open>messageId\<close>, no registered handler has an id above \<open>messageId\<close>, and no promise
  exists for an id above it.
\<close>

definition ids_in_order :: "AutoClicker \<Rightarrow> bool" where
  "ids_in_order st =
     (sorted_wrt (<) (map fst (sent st)) \<and>
      (\<forall>i\<in>set (map fst (sent st)). 0 < i \<and> i \<le> messageId st) \<and>
      (\<forall>h\<in>set (handlers st). h \<le> messageId st) \<and>
      (\<forall>i. messageId st < i \<longrightarrow> promises st i = None))"

section \<open>Properties of the SafetyFilter\<close>

lemma lowerChar_space: "isSpace c \<Longrightarrow> lowerChar c = c"
  unfolding isSpace_def by (simp, elim disjE) (simp_all add: lowerChar_def)

lemma trim_blank: "list_all isSpace s \<Longrightarrow> trim (toLowerCase s) = []"
proof -
  assume a: "list_all isSpace s"
  then have l: "toLowerCase s = s"
    unfolding toLowerCase_def by (induction s) (simp_all add: lowerChar_space)
  from a have d: "dropWhile isSpace s = []"
    by (simp add: list_all_iff)
  show ?thesis unfolding trim_def l d by simp
qed

lemma isBlocked_loop_step:
  "isBlocked_loop RegExp command (entry # rest) =
     (if trim (toLowerCase entry) = [] then isBlocked_loop RegExp command rest
      else if delimited entry then
        (case RegExp (inner_text entry) (flags_of entry) of
           Some regex \<Rightarrow> if regex command then True else isBlocked_loop RegExp command rest
         | None \<Rightarrow>
             if str_includes (toLowerCase command) (trim (toLowerCase entry)) then True
             else isBlocked_loop RegExp command rest)
      else if str_includes (toLowerCase command) (trim (toLowerCase entry)) then True
      else isBlocked_loop RegExp command rest)"
  by (simp only: isBlocked_loop.simps Let_def delimited_def inner_text_def flags_of_def)

lemma isBlocked_loop_Cons:
  "isBlocked_loop RegExp command (entry # rest) =
     (entry_matches RegExp entry command \<or> isBlocked_loop RegExp command rest)"
  by (cases "RegExp (inner_text entry) (flags_of entry)")
     (simp_all only: isBlocked_loop_step entry_matches_def option.case split: if_split, simp_all)

lemma isBlocked_loop_entries:
  "isBlocked_loop RegExp command entries =
     (\<exists>entry\<in>set entries. entry_matches RegExp entry command)"
  by (induction entries) (simp_all add: isBlocked_loop_Cons del: isBlocked_loop.simps(2))

lemma isBlocked_loop_append:
  "isBlocked_loop RegExp command (xs @ ys) =
     (isBlocked_loop RegExp command xs \<or> isBlocked_loop RegExp command ys)"
  by (auto simp: isBlocked_loop_entries)

text \<open>
  C10. An entry of the blocklist that is empty or made of white space only is skipped by
  \<open>isBlocked\<close>: the answer is the one the loop gives on the list without that entry,
  whatever the command and the engine, and a blocklist holding only such an entry blocks
  nothing.
\<close>

theorem C10_blank_entry_skipped:
  assumes "list_all isSpace entry"
  shows "isBlocked RegExp (Some (before @ entry # after)) command =
           isBlocked_loop RegExp command (before @ after)
         \<and> \<not> isBlocked RegExp (Some [entry]) command"
proof -
  have blank: "\<not> entry_matches RegExp entry command"
    using assms by (simp add: entry_matches_def trim_blank)
  have "isBlocked_loop RegExp command (before @ entry # after) =
          isBlocked_loop RegExp command (before @ after)"
    using blank by (auto simp: isBlocked_loop_entries)
  moreover have "\<not> isBlocked_loop RegExp command [entry]"
    using blank by (simp add: isBlocked_loop_entries)
  ultimately show ?thesis
    by (simp add: isBlocked_def getBlocklist_def)
qed

theorem C10_blank_entry_skipped_witness:
  "list_all isSpace ''  '' \<and>
   isBlocked RegExp_fragment (Some ([''rm -rf''] @ ''  '' # [''//''])) ''ls -la'' =
     isBlocked_loop RegExp_fragment ''ls -la'' ([''rm -rf''] @ [''//'']) \<and>
   \<not> isBlocked RegExp_fragment (Some [''  '']) ''ls -la''"
proof -
  have h: "list_all isSpace ''  ''" by (simp add: isSpace_def)
  from C10_blank_entry_skipped [OF h, of RegExp_fragment "[''rm -rf'']" "[''//'']" "''ls -la''"] h
  show ?thesis by simp
qed

text \<open>
  C4, as the code has it. \<open>isBlocked\<close> answers true exactly when some entry of the active
  blocklist matches by \<open>entry_matches\<close>: entries blank after trimming match nothing; a
  literal entry is searched, trimmed and without regard to case, in the command; an entry
  \<open>/pattern/flags\<close> is compiled with its flags (\<open>i\<close> when none are given) and tested on
  the raw command; a delimited entry that does not compile is searched as the whole
  trimmed entry, delimiters included. With the blocklist \<open>["rm -rf"]\<close> the command
  \<open>"RM -RF /tmp"\<close> is blocked under every engine.
\<close>

theorem C4_isBlocked_rules:
  "isBlocked RegExp custom command =
     (\<exists>entry\<in>set (getBlocklist custom). entry_matches RegExp entry command)
   \<and> isBlocked RegExp (Some [''rm -rf'']) ''RM -RF /tmp''"
proof -
  have "isBlocked RegExp (Some [''rm -rf'']) ''RM -RF /tmp''"
    by (simp add: isBlocked_def getBlocklist_def toLowerCase_def lowerChar_def trim_def isSpace_def)
  then show ?thesis
    by (simp add: isBlocked_def isBlocked_loop_entries)
qed

theorem C4_isBlocked_rules_witness:
  "isBlocked RegExp_fragment (Some [''/rm(/'', ''/Format C/'']) ''format c: /q'' \<and>
   (\<exists>entry\<in>set (getBlocklist (Some [''/rm(/'', ''/Format C/''])).
      entry_matches RegExp_fragment entry ''format c: /q'')"
proof -
  have "isBlocked RegExp_fragment (Some [''/rm(/'', ''/Format C/'']) ''format c: /q''"
    by code_simp
  with C4_isBlocked_rules [of RegExp_fragment "Some [''/rm(/'', ''/Format C/'']" "''format c: /q''"]
  show ?thesis by simp
qed

text \<open>
  The rules as the specification words them fail on three blocklists of one entry. The
  entry \<open>/rm(/\<close> does not compile; its inner text \<open>rm(\<close> occurs in the command \<open>rm(\<close>, yet
  the command is not blocked, because the search is for \<open>/rm(/\<close>. The empty entry occurs
  in every command and blocks none. The entry \<open>" rm "\<close> does not occur in \<open>rm\<close> and blocks
  it, because it is trimmed first.
\<close>

theorem C4_counterexample:
  "getBlocklist (Some [''/rm(/'']) = [''/rm(/''] \<and>
   \<not> isBlocked RegExp_fragment (Some [''/rm(/'']) ''rm('' \<and>
   entry_matches_claimed RegExp_fragment ''/rm(/'' ''rm('' \<and>
   getBlocklist (Some ['''']) = [''''] \<and>
   \<not> isBlocked RegExp_fragment (Some ['''']) ''ls'' \<and>
   entry_matches_claimed RegExp_fragment '''' ''ls'' \<and>
   getBlocklist (Some ['' rm '']) = ['' rm ''] \<and>
   isBlocked RegExp_fragment (Some ['' rm '']) ''rm'' \<and>
   \<not> entry_matches_claimed RegExp_fragment '' rm '' ''rm''"
  by code_simp

section \<open>Properties of the decision routine\<close>

lemma clickLoop_sound:
  "el \<in> set (clickLoop BLOCKLIST buttons) \<Longrightarrow> el \<in> set buttons \<and> isAcceptButton el"
proof (induction buttons)
  case Nil
  then show ?case by simp
next
  case (Cons btn rest)
  then show ?case
    by (cases "isAcceptButton btn") (auto simp: Let_def split: if_splits)
qed

lemma clicks_sound:
  assumes "el \<in> set (clicks (clickScript BLOCKLIST doc))"
  shows "el \<in> set (candidates (clickScript BLOCKLIST doc)) \<and> isAcceptButton el"
proof (cases "isUserTyping (activeElement doc)")
  case True
  with assms show ?thesis by (simp add: clickScript_def)
next
  case False
  with assms have "el \<in> set (clickLoop BLOCKLIST (querySelectorAll doc))"
    by (simp add: clickScript_def Let_def)
  from clickLoop_sound [OF this] False show ?thesis
    by (simp add: clickScript_def Let_def)
qed

lemma candidates_iff:
  "el \<in> set (candidates (clickScript BLOCKLIST doc)) \<longleftrightarrow>
     \<not> isUserTyping (activeElement doc) \<and> el \<in> set (elements doc) \<and> matchesSelector el"
  by (auto simp: clickScript_def Let_def querySelectorAll_def)

text \<open>
  C3. An element whose normalised text (trimmed, lower case) contains a reject pattern is
  never clicked, whatever else the text contains, whatever the page and the configured
  blocklist.
\<close>

theorem C3_reject_wins:
  assumes "\<exists>p\<in>set REJECT_PATTERNS. str_includes (toLowerCase (trim (textContent el))) p"
  shows "el \<notin> set (clicks (generateClickScript configured doc))"
proof
  assume "el \<in> set (clicks (generateClickScript configured doc))"
  then have "isAcceptButton el"
    unfolding generateClickScript_def using clicks_sound by blast
  moreover from assms have "\<not> isAcceptButton el"
    by (simp add: isAcceptButton_def Let_def list_ex_iff)
  ultimately show False by simp
qed

theorem C3_reject_wins_witness:
  "(\<exists>p\<in>set REJECT_PATTERNS.
      str_includes (toLowerCase (trim (textContent (plainButton ''Skip and Run'' None)))) p) \<and>
   (\<exists>p\<in>set ACCEPT_PATTERNS.
      str_includes (toLowerCase (trim (textContent (plainButton ''Skip and Run'' None)))) p) \<and>
   plainButton ''Skip and Run'' None \<notin>
     set (clicks (generateClickScript None
       (idle [plainButton ''Skip and Run'' None, plainButton ''Accept'' None])))"
proof -
  have r: "\<exists>p\<in>set REJECT_PATTERNS.
      str_includes (toLowerCase (trim (textContent (plainButton ''Skip and Run'' None)))) p"
    by code_simp
  have a: "\<exists>p\<in>set ACCEPT_PATTERNS.
      str_includes (toLowerCase (trim (textContent (plainButton ''Skip and Run'' None)))) p"
    by code_simp
  from C3_reject_wins [OF r] r a show ?thesis by blast
qed

text \<open>
  C5. When the focused element is an \<open>input\<close> or a \<open>textarea\<close>, is content-editable, or
  has itself or an ancestor with the class \<open>monaco-editor\<close>, a class attribute containing
  \<open>input\<close>, or the class \<open>ProseMirror\<close>, the routine returns \<open>clicked = 0\<close> and
  \<open>skipped = "user typing"\<close>, enumerates no candidate and clicks nothing, whatever
  buttons the page holds.
\<close>

theorem C5_typing_guard:
  assumes "activeElement doc = Some a"
    and "toLowerCase (activeTagName a) = ''input'' \<or> toLowerCase (activeTagName a) = ''textarea''
         \<or> isContentEditable a
         \<or> closest_class ''monaco-editor'' (lineage a)
         \<or> closest_class_contains ''input'' (lineage a)
         \<or> closest_class ''ProseMirror'' (lineage a)"
  shows "generateClickScript configured doc =
           \<lparr>clicked = 0, skipped = Some ''user typing'', candidates = [], clicks = []\<rparr>"
proof -
  from assms have "isUserTyping (activeElement doc)"
    by (auto simp: isUserTyping_def Let_def)
  then show ?thesis
    by (simp add: generateClickScript_def clickScript_def)
qed

theorem C5_typing_guard_witness:
  "generateClickScript None
     \<lparr>activeElement = Some \<lparr>activeTagName = ''INPUT'', isContentEditable = False, lineage = ['''']\<rparr>,
      elements = [plainButton ''Accept'' None]\<rparr> =
     \<lparr>clicked = 0, skipped = Some ''user typing'', candidates = [], clicks = []\<rparr> \<and>
   clicks (generateClickScript None (idle [plainButton ''Accept'' None])) =
     [plainButton ''Accept'' None]"
proof -
  have t: "toLowerCase (activeTagName
      \<lparr>activeTagName = ''INPUT'', isContentEditable = False, lineage = ['''']\<rparr>) = ''input''"
    by code_simp
  have c: "clicks (generateClickScript None (idle [plainButton ''Accept'' None])) =
     [plainButton ''Accept'' None]"
    by code_simp
  from C5_typing_guard [of "\<lparr>activeElement = Some \<lparr>activeTagName = ''INPUT'',
        isContentEditable = False, lineage = ['''']\<rparr>,
      elements = [plainButton ''Accept'' None]\<rparr>"
      "\<lparr>activeTagName = ''INPUT'', isContentEditable = False, lineage = ['''']\<rparr>" None] t c
  show ?thesis by simp
qed

text \<open>
  C6, as the code has it. The candidates are exactly the elements of the page that are
  \<open>button\<close> elements, carry \<open>role="button"\<close>, or have a class attribute containing
  \<open>button\<close> (and there are none while the user is typing); only candidates are clicked.
\<close>

theorem C6_candidates:
  "(el \<in> set (candidates (generateClickScript configured doc)) \<longleftrightarrow>
      \<not> isUserTyping (activeElement doc) \<and> el \<in> set (elements doc) \<and>
      (tagName el = ''button'' \<or> role el = ''button'' \<or> str_includes (className el) ''button''))
   \<and> set (clicks (generateClickScript configured doc))
       \<subseteq> set (candidates (generateClickScript configured doc))"
proof -
  have "set (clicks (generateClickScript configured doc))
       \<subseteq> set (candidates (generateClickScript configured doc))"
    unfolding generateClickScript_def using clicks_sound by blast
  then show ?thesis
    by (simp add: generateClickScript_def candidates_iff matchesSelector_def)
qed

theorem C6_candidates_witness:
  "plainButton ''Accept'' None \<in> set (candidates (generateClickScript None
      (idle [plainButton ''Accept'' None, (plainButton ''Accept'' None)\<lparr>tagName := ''span''\<rparr>])))
   \<and> (plainButton ''Accept'' None)\<lparr>tagName := ''span''\<rparr> \<notin> set (clicks (generateClickScript None
      (idle [plainButton ''Accept'' None, (plainButton ''Accept'' None)\<lparr>tagName := ''span''\<rparr>])))"
proof -
  have n: "\<not> isUserTyping (activeElement
      (idle [plainButton ''Accept'' None, (plainButton ''Accept'' None)\<lparr>tagName := ''span''\<rparr>]))"
    by code_simp
  have s: "\<not> (tagName ((plainButton ''Accept'' None)\<lparr>tagName := ''span''\<rparr>) = ''button'' \<or>
      role ((plainButton ''Accept'' None)\<lparr>tagName := ''span''\<rparr>) = ''button'' \<or>
      str_includes (className ((plainButton ''Accept'' None)\<lparr>tagName := ''span''\<rparr>)) ''button'')"
    by code_simp
  have b: "tagName (plainButton ''Accept'' None) = ''button''"
    by code_simp
  from C6_candidates [of "plainButton ''Accept'' None" None
      "idle [plainButton ''Accept'' None, (plainButton ''Accept'' None)\<lparr>tagName := ''span''\<rparr>]"]
    C6_candidates [of "(plainButton ''Accept'' None)\<lparr>tagName := ''span''\<rparr>" None
      "idle [plainButton ''Accept'' None, (plainButton ''Accept'' None)\<lparr>tagName := ''span''\<rparr>]"]
    n s b
  show ?thesis by (auto simp: idle_def)
qed

text \<open>
  A \<open>div\<close> without a \<open>role\<close>, of class \<open>action-button\<close> and text \<open>Accept\<close>, is a candidate
  and is clicked.
\<close>

theorem C6_counterexample:
  "tagName ((plainButton ''Accept'' None)\<lparr>tagName := ''div'', className := ''action-button''\<rparr>)
     \<noteq> ''button'' \<and>
   role ((plainButton ''Accept'' None)\<lparr>tagName := ''div'', className := ''action-button''\<rparr>)
     \<noteq> ''button'' \<and>
   candidates (generateClickScript None
     (idle [(plainButton ''Accept'' None)\<lparr>tagName := ''div'', className := ''action-button''\<rparr>])) =
     [(plainButton ''Accept'' None)\<lparr>tagName := ''div'', className := ''action-button''\<rparr>] \<and>
   clicks (generateClickScript None
     (idle [(plainButton ''Accept'' None)\<lparr>tagName := ''div'', className := ''action-button''\<rparr>])) =
     [(plainButton ''Accept'' None)\<lparr>tagName := ''div'', className := ''action-button''\<rparr>]"
  by code_simp

text \<open>
  C1, on the code. With the configured blocklist empty, \<open>getBlocklist\<close> gives the default
  list and the default list blocks the preview \<open>rm -rf /\<close>; the routine built by
  \<open>generateClickScript\<close> is given the empty configured list instead, and clicks the
  \<open>Run command\<close> button next to that preview as well as the unrelated \<open>Accept all\<close>
  button. Given the default list, the same routine clicks \<open>Accept all\<close> only.
\<close>

theorem C1_run_button_clicked:
  "getBlocklist (Some []) = DEFAULT_BLOCKLIST \<and>
   isCommandBlocked DEFAULT_BLOCKLIST ''rm -rf /'' \<and>
   clicks (generateClickScript (Some [])
     (idle [plainButton ''Run command'' (Some ''rm -rf /''), plainButton ''Accept all'' None])) =
     [plainButton ''Run command'' (Some ''rm -rf /''), plainButton ''Accept all'' None] \<and>
   clicks (clickScript DEFAULT_BLOCKLIST
     (idle [plainButton ''Run command'' (Some ''rm -rf /''), plainButton ''Accept all'' None])) =
     [plainButton ''Accept all'' None]"
  by code_simp

section \<open>Properties of ProcessHunter\<close>

lemma collectPorts_invariant:
  assumes "distinct ports" and "\<forall>p\<in>set ports. 1024 < p \<and> p \<le> 65535"
  shows "distinct (collectPorts ports vs) \<and>
         (\<forall>p\<in>set (collectPorts ports vs). 1024 < p \<and> p \<le> 65535)"
  using assms
proof (induction vs arbitrary: ports)
  case Nil
  then show ?case by simp
next
  case (Cons v vs)
  note keep = Cons.IH [OF Cons.prems]
  show ?case
  proof (cases "parseInt v")
    case None
    with keep show ?thesis by simp
  next
    case (Some port)
    show ?thesis
    proof (cases "port > 1024 \<and> port \<le> 65535")
      case False
      then have "collectPorts ports (v # vs) = collectPorts ports vs"
        using Some by auto
      with keep show ?thesis by simp
    next
      case True
      let ?ports' = "if port \<in> set ports then ports else ports @ [port]"
      have "distinct ?ports'" using Cons.prems(1) by simp
      moreover have "\<forall>p\<in>set ?ports'. 1024 < p \<and> p \<le> 65535"
        using Cons.prems(2) True by simp
      ultimately have "distinct (collectPorts ?ports' vs) \<and>
         (\<forall>p\<in>set (collectPorts ?ports' vs). 1024 < p \<and> p \<le> 65535)"
        by (rule Cons.IH)
      with Some True show ?thesis by simp
    qed
  qed
qed

lemma parseListeningPorts_range:
  "p \<in> set (parseListeningPorts stdout) \<Longrightarrow> 1024 < p \<and> p \<le> 65535"
  using collectPorts_invariant [of "[]" "matchPortNumbers False stdout"]
  by (simp add: parseListeningPorts_def)

lemma parseListeningPorts_distinct: "distinct (parseListeningPorts stdout)"
  using collectPorts_invariant [of "[]" "matchPortNumbers False stdout"]
  by (simp add: parseListeningPorts_def)

lemma parseListeningPorts_sorted: "sorted (parseListeningPorts stdout)"
  by (simp add: parseListeningPorts_def)
lemma verifyConnection_probes:
  "fst (verifyConnection pingPort ports token) =
     takeWhile (\<lambda>p. \<not> pingPort p token) ports @
       (case find (\<lambda>p. pingPort p token) ports of Some p \<Rightarrow> [p] | None \<Rightarrow> [])"
  by (induction ports) simp_all

lemma verifyConnection_result:
  "snd (verifyConnection pingPort ports token) = find (\<lambda>p. pingPort p token) ports"
  by (induction ports) simp_all

lemma verifyConnection_prefix:
  "prefix (fst (verifyConnection pingPort ports token)) ports"
  by (induction ports) simp_all
text \<open>
  C7. For every output of the port listing, the ports parsed from it lie in
  \<open>(1024, 65535]\<close>, are free of duplicates and ascend. \<open>verifyConnection\<close> probes an
  initial segment of that list, in its order: the ports that do not verify up to the
  first that does, which it returns (none when no port verifies). Every port probed lies
  in \<open>(1024, 65535]\<close>.
\<close>

theorem C7_ports_in_range_ascending:
  "(\<forall>p\<in>set (parseListeningPorts stdout). 1024 < p \<and> p \<le> 65535) \<and>
   distinct (parseListeningPorts stdout) \<and>
   sorted (parseListeningPorts stdout) \<and>
   prefix (fst (verifyConnection pingPort (parseListeningPorts stdout) token))
     (parseListeningPorts stdout) \<and>
   fst (verifyConnection pingPort (parseListeningPorts stdout) token) =
     takeWhile (\<lambda>p. \<not> pingPort p token) (parseListeningPorts stdout) @
       (case find (\<lambda>p. pingPort p token) (parseListeningPorts stdout) of
          Some p \<Rightarrow> [p]
        | None \<Rightarrow> []) \<and>
   snd (verifyConnection pingPort (parseListeningPorts stdout) token) =
     find (\<lambda>p. pingPort p token) (parseListeningPorts stdout) \<and>
   (\<forall>p\<in>set (fst (verifyConnection pingPort (parseListeningPorts stdout) token)).
      1024 < p \<and> p \<le> 65535)"
proof (intro conjI)
  show "\<forall>p\<in>set (parseListeningPorts stdout). 1024 < p \<and> p \<le> 65535"
    using parseListeningPorts_range by blast
  show "distinct (parseListeningPorts stdout)"
    by (rule parseListeningPorts_distinct)
  show "sorted (parseListeningPorts stdout)"
    by (rule parseListeningPorts_sorted)
  show "prefix (fst (verifyConnection pingPort (parseListeningPorts stdout) token))
     (parseListeningPorts stdout)"
    by (rule verifyConnection_prefix)
  show "fst (verifyConnection pingPort (parseListeningPorts stdout) token) =
     takeWhile (\<lambda>p. \<not> pingPort p token) (parseListeningPorts stdout) @
       (case find (\<lambda>p. pingPort p token) (parseListeningPorts stdout) of
          Some p \<Rightarrow> [p]
        | None \<Rightarrow> [])"
    by (rule verifyConnection_probes)
  show "snd (verifyConnection pingPort (parseListeningPorts stdout) token) =
     find (\<lambda>p. pingPort p token) (parseListeningPorts stdout)"
    by (rule verifyConnection_result)
  have "set (fst (verifyConnection pingPort (parseListeningPorts stdout) token))
          \<subseteq> set (parseListeningPorts stdout)"
    using verifyConnection_prefix by (rule set_mono_prefix)
  then show "\<forall>p\<in>set (fst (verifyConnection pingPort (parseListeningPorts stdout) token)).
      1024 < p \<and> p \<le> 65535"
    using parseListeningPorts_range by blast
qed

theorem C7_ports_in_range_ascending_witness:
  "parseListeningPorts
     ''LISTEN 0 4096 127.0.0.1:42100 0.0.0.0:* pid=4321,fd=7 [::1]:9222 *:80 *:42100 *:70000''
     = [4096, 4321, 9222, 42100] \<and>
   verifyConnection (\<lambda>p t. p = 9222) [4096, 4321, 9222, 42100] ''c0ffee''
     = ([4096, 4321, 9222], Some 9222) \<and>
   distinct (parseListeningPorts
     ''LISTEN 0 4096 127.0.0.1:42100 0.0.0.0:* pid=4321,fd=7 [::1]:9222 *:80 *:42100 *:70000'') \<and>
   prefix (fst (verifyConnection (\<lambda>p t. p = 9222) (parseListeningPorts
     ''LISTEN 0 4096 127.0.0.1:42100 0.0.0.0:* pid=4321,fd=7 [::1]:9222 *:80 *:42100 *:70000'')
       ''c0ffee''))
     (parseListeningPorts
     ''LISTEN 0 4096 127.0.0.1:42100 0.0.0.0:* pid=4321,fd=7 [::1]:9222 *:80 *:42100 *:70000'')"
proof -
  have m: "matchPortNumbers False
     ''LISTEN 0 4096 127.0.0.1:42100 0.0.0.0:* pid=4321,fd=7 [::1]:9222 *:80 *:42100 *:70000''
     = [''0'', ''4096'', ''127'', ''0'', ''0'', ''1'', ''42100'', ''0'', ''0'', ''0'', ''0'',
        ''4321'', ''7'', ''1'', ''9222'', ''80'', ''42100'', ''70000'']"
    by (simp add: isDigit_def isWordChar_def)
  have e: "parseListeningPorts
     ''LISTEN 0 4096 127.0.0.1:42100 0.0.0.0:* pid=4321,fd=7 [::1]:9222 *:80 *:42100 *:70000''
     = [4096, 4321, 9222, 42100]"
    unfolding parseListeningPorts_def m
    by (simp add: parseInt_def isSpace_def isDigit_def decimal_def digitValue_def)
  have v: "verifyConnection (\<lambda>p t. p = 9222) [4096, 4321, 9222, 42100] ''c0ffee''
     = ([4096, 4321, 9222], Some 9222)"
    by simp
  from C7_ports_in_range_ascending [of
      "''LISTEN 0 4096 127.0.0.1:42100 0.0.0.0:* pid=4321,fd=7 [::1]:9222 *:80 *:42100 *:70000''"
      "\<lambda>p t. p = 9222" "''c0ffee''"]
  have "distinct (parseListeningPorts
     ''LISTEN 0 4096 127.0.0.1:42100 0.0.0.0:* pid=4321,fd=7 [::1]:9222 *:80 *:42100 *:70000'') \<and>
   prefix (fst (verifyConnection (\<lambda>p t. p = 9222) (parseListeningPorts
     ''LISTEN 0 4096 127.0.0.1:42100 0.0.0.0:* pid=4321,fd=7 [::1]:9222 *:80 *:42100 *:70000'')
       ''c0ffee''))
     (parseListeningPorts
     ''LISTEN 0 4096 127.0.0.1:42100 0.0.0.0:* pid=4321,fd=7 [::1]:9222 *:80 *:42100 *:70000'')"
    by (elim conjE, intro conjI)
  with e v show ?thesis by (intro conjI; elim conjE)
qed

lemma parseLines_Cons: "parseLines (line # rest) = parseLines [line] @ parseLines rest"
  by (simp add: Let_def split: option.split)

lemma parseLines_append: "parseLines (xs @ ys) = parseLines xs @ parseLines ys"
proof (induction xs)
  case Nil
  then show ?case by simp
next
  case (Cons x xs)
  have "parseLines ((x # xs) @ ys) = parseLines [x] @ parseLines (xs @ ys)"
    using parseLines_Cons [of x "xs @ ys"] by simp
  also have "\<dots> = parseLines [x] @ parseLines xs @ parseLines ys"
    using Cons.IH by simp
  also have "\<dots> = parseLines (x # xs) @ parseLines ys"
    using parseLines_Cons [of x xs] by simp
  finally show ?case .
qed

lemma parseLines_rejected:
  "\<not> isAntigravityProcess (join_space (drop 2 (split_ws (trim line)))) \<Longrightarrow>
     parseLines [line] = []"
  by (simp add: Let_def split: option.split)

lemma parseItems_Cons: "parseItems (item # rest) = parseItems [item] @ parseItems rest"
  by (simp add: Let_def split: option.split)

lemma parseItems_append: "parseItems (xs @ ys) = parseItems xs @ parseItems ys"
proof (induction xs)
  case Nil
  then show ?case by simp
next
  case (Cons x xs)
  have "parseItems ((x # xs) @ ys) = parseItems [x] @ parseItems (xs @ ys)"
    using parseItems_Cons [of x "xs @ ys"] by simp
  also have "\<dots> = parseItems [x] @ parseItems xs @ parseItems ys"
    using Cons.IH by simp
  also have "\<dots> = parseItems (x # xs) @ parseItems ys"
    using parseItems_Cons [of x xs] by simp
  finally show ?case .
qed

lemma parseItems_rejected:
  "CommandLine item = Some cmd \<Longrightarrow> \<not> isAntigravityProcess cmd \<Longrightarrow> parseItems [item] = []"
  by (simp add: Let_def)

text \<open>
  C8. Take a command line that carries the marker argument and lacks
  \<open>--extension_server_port\<close> or \<open>--csrf_token\<close>. Off Windows, when the process has a
  line among the non-blank lines of the listing, the candidates are those parsed from
  the lines before and after it. On Windows, when the process is one of the decoded
  items, the candidates are those parsed from the items before and after it.
\<close>

theorem C8_missing_flag_excluded:
  assumes "markerTest cmd"
    and "\<not> str_includes cmd ''--extension_server_port'' \<or> \<not> str_includes cmd ''--csrf_token''"
  shows "(pf \<noteq> Win32 \<and> join_space (drop 2 (split_ws (trim line))) = cmd \<and>
          filter (\<lambda>l. trim l \<noteq> []) (splitOn (\<lambda>c. c = CHR 0x0A) stdout) = head_lines @ line # tail_lines
            \<longrightarrow> parseProcessInfo JSON_parse pf stdout = parseLines (head_lines @ tail_lines))
       \<and> (CHR ''{'' \<in> set stdout \<and> CommandLine item = Some cmd \<and>
          JSON_parse (trim (dropWhile (\<lambda>c. c \<noteq> CHR ''{'') stdout)) = Some (before @ item # after)
            \<longrightarrow> parseProcessInfo JSON_parse Win32 stdout = parseItems (before @ after))"
proof -
  from assms(2) have rejected: "\<not> isAntigravityProcess cmd"
    by (auto simp: isAntigravityProcess_def)
  have unix: "parseProcessInfo JSON_parse pf stdout = parseLines (head_lines @ tail_lines)"
    if "pf \<noteq> Win32" and "join_space (drop 2 (split_ws (trim line))) = cmd"
      and "filter (\<lambda>l. trim l \<noteq> []) (splitOn (\<lambda>c. c = CHR 0x0A) stdout) = head_lines @ line # tail_lines"
  proof -
    from that(2) rejected have "parseLines [line] = []"
      by (intro parseLines_rejected) simp
    then have "parseLines (head_lines @ line # tail_lines) = parseLines (head_lines @ tail_lines)"
      using parseLines_append [of head_lines "line # tail_lines"] parseLines_Cons [of line tail_lines]
        parseLines_append [of head_lines tail_lines]
      by (simp del: parseLines.simps)
    with that(1,3) show ?thesis
      by (simp add: parseProcessInfo_def)
  qed
  have win: "parseProcessInfo JSON_parse Win32 stdout = parseItems (before @ after)"
    if "CHR ''{'' \<in> set stdout" and "CommandLine item = Some cmd"
      and "JSON_parse (trim (dropWhile (\<lambda>c. c \<noteq> CHR ''{'') stdout)) = Some (before @ item # after)"
  proof -
    from that(2) rejected have "parseItems [item] = []"
      by (rule parseItems_rejected)
    then have "parseItems (before @ item # after) = parseItems (before @ after)"
      using parseItems_append [of before "item # after"] parseItems_Cons [of item after]
        parseItems_append [of before after]
      by (simp del: parseItems.simps)
    with that(1,3) show ?thesis
      by (simp add: parseProcessInfo_def)
  qed
  from unix win show ?thesis by blast
qed

theorem C8_missing_flag_excluded_witness:
  "markerTest ''ls --csrf_token a1 --app_data_dir antigravity'' \<and>
   \<not> str_includes ''ls --csrf_token a1 --app_data_dir antigravity'' ''--extension_server_port'' \<and>
   parseProcessInfo (\<lambda>s. None) Linux
     (''9 1 ls --extension_server_port 42100 --csrf_token 9f-e1 --app_data_dir antigravity''
        @ CHR 0x0A # ''7 1 ls --csrf_token a1 --app_data_dir antigravity'' @ CHR 0x0A # [])
     = [\<lparr>pid = 9, extensionPort = 42100, csrfToken = ''9f-e1''\<rparr>] \<and>
   markerTest ''ls.exe --extension_server_port=42100 --app_data_dir antigravity'' \<and>
   \<not> str_includes ''ls.exe --extension_server_port=42100 --app_data_dir antigravity''
       ''--csrf_token'' \<and>
   parseProcessInfo
     (\<lambda>s. Some [\<lparr>ProcessId = Some 5120, CommandLine =
                Some ''ls.exe --extension_server_port=42100 --csrf_token=9f-e1 --app_data_dir antigravity''\<rparr>,
              \<lparr>ProcessId = Some 6004, CommandLine =
                Some ''ls.exe --extension_server_port=42100 --app_data_dir antigravity''\<rparr>])
     Win32 ''{}''
     = [\<lparr>pid = 5120, extensionPort = 42100, csrfToken = ''9f-e1''\<rparr>]"
proof -
  let ?good = "''9 1 ls --extension_server_port 42100 --csrf_token 9f-e1 --app_data_dir antigravity''"
  let ?bad = "''7 1 ls --csrf_token a1 --app_data_dir antigravity''"
  let ?cmd = "''ls --csrf_token a1 --app_data_dir antigravity''"
  let ?goodItem = "\<lparr>ProcessId = Some 5120, CommandLine =
      Some ''ls.exe --extension_server_port=42100 --csrf_token=9f-e1 --app_data_dir antigravity''\<rparr>"
  let ?badItem = "\<lparr>ProcessId = Some 6004, CommandLine =
      Some ''ls.exe --extension_server_port=42100 --app_data_dir antigravity''\<rparr>"
  let ?cmdW = "''ls.exe --extension_server_port=42100 --app_data_dir antigravity''"
  have m: "markerTest ?cmd" by code_simp
  have n: "\<not> str_includes ?cmd ''--extension_server_port''" by code_simp
  have j: "join_space (drop 2 (split_ws (trim ?bad))) = ?cmd" by code_simp
  have l: "filter (\<lambda>l. trim l \<noteq> [])
             (splitOn (\<lambda>c. c = CHR 0x0A) (?good @ CHR 0x0A # ?bad @ CHR 0x0A # []))
           = [?good] @ ?bad # []"
    by code_simp
  have g: "parseLines ([?good] @ [])
             = [\<lparr>pid = 9, extensionPort = 42100, csrfToken = ''9f-e1''\<rparr>]"
    by code_simp
  have mw: "markerTest ?cmdW" by code_simp
  have nw: "\<not> str_includes ?cmdW ''--csrf_token''" by code_simp
  have gw: "parseItems ([?goodItem] @ [])
             = [\<lparr>pid = 5120, extensionPort = 42100, csrfToken = ''9f-e1''\<rparr>]"
    by code_simp
  have u: "parseProcessInfo (\<lambda>s. None) Linux (?good @ CHR 0x0A # ?bad @ CHR 0x0A # [])
             = [\<lparr>pid = 9, extensionPort = 42100, csrfToken = ''9f-e1''\<rparr>]"
    using C8_missing_flag_excluded [where cmd = ?cmd and pf = Linux and line = ?bad
        and stdout = "?good @ CHR 0x0A # ?bad @ CHR 0x0A # []"
        and head_lines = "[?good]" and tail_lines = "[]" and JSON_parse = "\<lambda>s. None"] m n j l g
    by (simp only: platform.distinct not_False_eq_True simp_thms)
  have w: "parseProcessInfo (\<lambda>s. Some [?goodItem, ?badItem]) Win32 ''{}''
             = [\<lparr>pid = 5120, extensionPort = 42100, csrfToken = ''9f-e1''\<rparr>]"
    using C8_missing_flag_excluded [where cmd = ?cmdW and stdout = "''{}''" and item = ?badItem
        and JSON_parse = "\<lambda>s. Some [?goodItem, ?badItem]"
        and before = "[?goodItem]" and after = "[]"] mw nw gw
    by simp
  from m n u mw nw w show ?thesis by (intro conjI)
qed

section \<open>Properties of the control channel\<close>

lemma run_Nil: "run st [] = st"
  by (simp add: run_def)

lemma run_Cons: "run st (a # as) = run (step st a) as"
  by (simp add: run_def)


lemma step_cases: "step st a = st \<or> step st a = react st a"
  by (simp add: step_def split: option.split)


lemma sendCDP_Inr:
  "sendCDP st method = Inr (callId, st') \<Longrightarrow>
     ws st = Some OPEN \<and> callId = messageId st + 1 \<and>
     st' = st\<lparr>messageId := callId, handlers := handlers st @ [callId],
              sent := sent st @ [(callId, method)],
              promises := (promises st)(callId \<mapsto> Pending)\<rparr>"
  by (auto simp: sendCDP_def Let_def split: if_splits)









text \<open>
  A frame that does not parse, arriving while the call is pending, makes the handler
  throw: the response that follows is delivered to no handler and the promise stays
  pending.
\<close>

lemma frame_that_does_not_parse:
  "promises (run newAutoClicker
     [Opened, Call ''Runtime.evaluate'', Frame Malformed, Frame (Response 1 None ''{}'')]) 1
     = Some Pending \<and>
   uncaught (run newAutoClicker
     [Opened, Call ''Runtime.evaluate'', Frame Malformed, Frame (Response 1 None ''{}'')])
     = Some ''SyntaxError''"
  by (simp add: run_def step_def sendCDP_def newAutoClicker_def onMessage_def)




lemma ids_in_order_new: "ids_in_order newAutoClicker"
  by (simp add: ids_in_order_def newAutoClicker_def)

lemma ids_in_order_sendCDP:
  assumes "ids_in_order st" and "sendCDP st method = Inr (callId, st')"
  shows "ids_in_order st'"
proof -
  from sendCDP_Inr [OF assms(2)]
  have c: "callId = messageId st + 1"
    and s: "st' = st\<lparr>messageId := callId, handlers := handlers st @ [callId],
              sent := sent st @ [(callId, method)],
              promises := (promises st)(callId \<mapsto> Pending)\<rparr>"
    by simp_all
  from assms(1) have "sorted_wrt (<) (map fst (sent st) @ [callId])"
    by (auto simp: ids_in_order_def c sorted_wrt_append)
  with assms(1) show ?thesis
    unfolding s by (auto simp: ids_in_order_def c)
qed

lemma ids_in_order_react:
  assumes "ids_in_order st"
  shows "ids_in_order (react st a)"
proof (cases a)
  case (Call m)
  show ?thesis
  proof (cases "sendCDP st m")
    case (Inl err)
    with Call assms show ?thesis by simp
  next
    case (Inr r)
    obtain callId st' where r: "r = (callId, st')" by (cases r)
    from ids_in_order_sendCDP [OF assms Inr [unfolded r]] Call Inr r
    show ?thesis by simp
  qed
next
  case (Frame frame)
  show ?thesis
  proof (cases frame)
    case (Response rid err result)
    with Frame assms show ?thesis
      by (auto simp: ids_in_order_def onMessage_def settle_def)
  qed (use Frame assms in \<open>auto simp: ids_in_order_def onMessage_def\<close>)
qed (use assms in \<open>auto simp: ids_in_order_def split: option.split\<close>)

lemma ids_in_order_step:
  assumes "ids_in_order st"
  shows "ids_in_order (step st a)"
  using step_cases [of st a] ids_in_order_react [OF assms, of a] assms by auto

lemma ids_in_order_run: "ids_in_order st \<Longrightarrow> ids_in_order (run st actions)"
  by (induction actions arbitrary: st) (simp_all add: run_Nil run_Cons ids_in_order_step)

text \<open>
  C9. Whatever happens to an AutoClicker from its creation on (calls, frames, time, the
  socket opening and closing), the ids of the envelopes it has sent ascend strictly and
  are all above zero; and the id a further call takes is above every id sent so far, is
  the id of no registered handler and of no promise, pending or settled.
\<close>

theorem C9_ids_increase:
  "sorted_wrt (<) (map fst (sent (run newAutoClicker actions))) \<and>
   (\<forall>i\<in>set (map fst (sent (run newAutoClicker actions))). 0 < i) \<and>
   (sendCDP (run newAutoClicker actions) method = Inr (callId, st') \<longrightarrow>
      (\<forall>i\<in>set (map fst (sent (run newAutoClicker actions))). i < callId) \<and>
      callId \<notin> set (handlers (run newAutoClicker actions)) \<and>
      promises (run newAutoClicker actions) callId = None)"
proof -
  have inv: "ids_in_order (run newAutoClicker actions)"
    using ids_in_order_new by (rule ids_in_order_run)
  have "(\<forall>i\<in>set (map fst (sent (run newAutoClicker actions))). i < callId) \<and>
      callId \<notin> set (handlers (run newAutoClicker actions)) \<and>
      promises (run newAutoClicker actions) callId = None"
    if "sendCDP (run newAutoClicker actions) method = Inr (callId, st')"
  proof -
    from sendCDP_Inr [OF that] have "callId = messageId (run newAutoClicker actions) + 1"
      by simp
    with inv show ?thesis
      by (fastforce simp: ids_in_order_def)
  qed
  with inv show ?thesis
    by (simp add: ids_in_order_def)
qed

theorem C9_ids_increase_witness:
  "map fst (sent (run newAutoClicker
     [Opened, Call ''Runtime.enable'', Frame (Response 1 None ''{}''),
      Call ''Runtime.evaluate'', Elapsed 1000, Call ''Runtime.evaluate''])) = [1, 2, 3] \<and>
   sorted_wrt (<) (map fst (sent (run newAutoClicker
     [Opened, Call ''Runtime.enable'', Frame (Response 1 None ''{}''),
      Call ''Runtime.evaluate'', Elapsed 1000, Call ''Runtime.evaluate'']))) \<and>
   (\<exists>st'. sendCDP (run newAutoClicker
     [Opened, Call ''Runtime.enable'', Frame (Response 1 None ''{}''),
      Call ''Runtime.evaluate'', Elapsed 1000, Call ''Runtime.evaluate'']) ''Runtime.evaluate''
        = Inr (4, st')) \<and>
   handlers (run newAutoClicker
     [Opened, Call ''Runtime.enable'', Frame (Response 1 None ''{}''),
      Call ''Runtime.evaluate'', Elapsed 1000, Call ''Runtime.evaluate'']) = [2, 3] \<and>
   4 \<notin> set (handlers (run newAutoClicker
     [Opened, Call ''Runtime.enable'', Frame (Response 1 None ''{}''),
      Call ''Runtime.evaluate'', Elapsed 1000, Call ''Runtime.evaluate'']))"
proof -
  let ?acts = "[Opened, Call ''Runtime.enable'', Frame (Response 1 None ''{}''),
      Call ''Runtime.evaluate'', Elapsed 1000, Call ''Runtime.evaluate'']"
  have e: "map fst (sent (run newAutoClicker ?acts)) = [1, 2, 3]"
    by (simp add: run_def step_def sendCDP_def newAutoClicker_def onMessage_def settle_def)
  have h: "handlers (run newAutoClicker ?acts) = [2, 3]"
    by (simp add: run_def step_def sendCDP_def newAutoClicker_def onMessage_def settle_def)
  have "\<exists>st'. sendCDP (run newAutoClicker ?acts) ''Runtime.evaluate'' = Inr (4, st')"
    by (simp add: run_def step_def sendCDP_def newAutoClicker_def onMessage_def settle_def)
  then obtain st' where s: "sendCDP (run newAutoClicker ?acts) ''Runtime.evaluate'' = Inr (4, st')"
    by blast
  from C9_ids_increase [of ?acts "''Runtime.evaluate''" 4 st'] s
  have "sorted_wrt (<) (map fst (sent (run newAutoClicker ?acts)))"
    and "4 \<notin> set (handlers (run newAutoClicker ?acts))"
    by blast+
  with e h s show ?thesis by blast
qed

end
